theory Spec2Isabelle
  imports Main
begin

section \<open>The retry executor \<open>useRetryFn\<close> of src/index.js\<close>

text \<open>
  \<open>useRetryFn(fn, options)\<close> calls \<open>fn\<close> until it succeeds, the attempt counter passes
  \<open>maxAttempts\<close>, the skip flag is set, or the per-attempt timer fires. The callbacks
  \<open>fn\<close>, \<open>options.delay\<close> and \<open>options.onError\<close> are supplied by the caller; the model
  takes what they do on each call as data. The ordinal \<open>attempts\<close> grows by one with every
  call of \<open>fn\<close>, so a function of the ordinal describes any sequence of behaviours of a
  stateful callback. Numbers (\<open>attempts\<close>, \<open>maxAttempts\<close>) are integers, durations
  (\<open>delay\<close>, \<open>timeout\<close>, the time an operation takes) are natural numbers of milliseconds.
\<close>

subsection \<open>Values and callbacks\<close>

text \<open>An \<open>Error\<close> object, known by its message. \<open>null\<close> is \<open>None\<close> of \<open>error option\<close>.\<close>

datatype error = Error string

text \<open>\<open>new Error('Operation timed out')\<close>, the rejection of the timer promise.\<close>

definition timeout_error :: error where
  "timeout_error = Error ''Operation timed out''"

datatype 'v settlement = Fulfil 'v | Reject error

text \<open>
  What one call \<open>fn({attempts, skipRetry})\<close> does until its promise settles, in the order
  in which it does it: it calls \<open>ctx.skipRetry\<close> at some time with some argument
  (\<open>err ?? null\<close>) and goes on, or its promise settles at some time, or nothing more
  happens and the promise never settles. A synchronous return or throw settles at time 0,
  after the calls made before it. What the operation does once its promise has settled
  is not part of the run: the \<open>catch\<close> block has read the variables by then, and the next
  iteration declares new ones.
\<close>

datatype 'v fn_run =
    CallSkip nat "error option" "'v fn_run"
  | Settle nat "'v settlement"
  | Forever

text \<open>All calls of \<open>ctx.skipRetry\<close> of a run, and how and when its promise settles.\<close>

fun fn_skips :: "'v fn_run \<Rightarrow> (nat \<times> error option) list" where
  "fn_skips (CallSkip t err run) = (t, err) # fn_skips run"
| "fn_skips (Settle d s) = []"
| "fn_skips Forever = []"

fun fn_settles :: "'v fn_run \<Rightarrow> (nat \<times> 'v settlement) option" where
  "fn_settles (CallSkip t err run) = fn_settles run"
| "fn_settles (Settle d s) = Some (d, s)"
| "fn_settles Forever = None"

text \<open>
  What one call \<open>options.onError({attempts, skipRetry})\<close> does: the arguments of its calls
  of \<open>ctx.skipRetry\<close>, and the exception it throws, if any.
\<close>

record hook_run =
  hook_skips :: "error option list"
  hook_throws :: "error option"

text \<open>\<open>delay?: number | (({attempts}) => number)\<close>\<close>

datatype delay_option = DelayNumber nat | DelayFunction "int \<Rightarrow> nat"

text \<open>\<open>UseRetryFnOptions\<close>; an absent field is \<open>None\<close>.\<close>

record UseRetryFnOptions =
  delay :: "delay_option option"
  onError :: "(int \<Rightarrow> hook_run) option"
  maxAttempts :: "int option"
  timeout :: "nat option"

subsection \<open>The state of one call\<close>

text \<open>
  The calls the loop makes to its environment, in order: the delay function, the
  operation, the error hook (each with the \<open>attempts\<close> value passed), and the wait
  \<open>setTimeout(resolve, delay)\<close> between attempts (with the delay waited).
\<close>

datatype event = DelayCalled int | FnCalled int | OnErrorCalled int | Slept nat

text \<open>The variables declared before the loop, and the log of events.\<close>

record run_state =
  attempts :: int
  lastError :: "error option"
  events :: "event list"

text \<open>The variables declared afresh by each iteration.\<close>

record locals =
  customError :: "error option"
  skipRetry :: bool

text \<open>The closure \<open>(err) => { customError = err ?? null; skipRetry = true; }\<close>.\<close>

definition ctx_skipRetry :: "error option \<Rightarrow> locals \<Rightarrow> locals" where
  "ctx_skipRetry err l = l\<lparr>customError := err, skipRetry := True\<rparr>"

definition skip_calls :: "error option list \<Rightarrow> locals \<Rightarrow> locals" where
  "skip_calls errs l = foldl (\<lambda>l' err. ctx_skipRetry err l') l errs"

subsection \<open>The race of the operation against the timer\<close>

text \<open>\<open>options.timeout ? [timer] : []\<close>: a timer exists when \<open>timeout\<close> is set and not 0.\<close>

definition timer :: "UseRetryFnOptions \<Rightarrow> nat option" where
  "timer opts = (case timeout opts of None \<Rightarrow> None | Some t \<Rightarrow> if t = 0 then None else Some t)"

text \<open>
  The timer's callback has run when the operation does something at time \<open>x\<close>. What
  the operation does at the very time of the timer comes first: its own timers were
  registered first.
\<close>

definition due :: "nat option \<Rightarrow> nat \<Rightarrow> bool" where
  "due tm x = (case tm of None \<Rightarrow> False | Some t \<Rightarrow> t < x)"

text \<open>
  The timer's callback runs (\<open>skipRetry = true; reject(new Error('Operation timed out'))\<close>
  takes effect) when the promise of the operation has not settled by then.
\<close>

fun timer_fires_in :: "nat option \<Rightarrow> 'v fn_run \<Rightarrow> bool" where
  "timer_fires_in tm (CallSkip t err run) = (due tm t \<or> timer_fires_in tm run)"
| "timer_fires_in tm (Settle d s) = due tm d"
| "timer_fires_in tm Forever = (tm \<noteq> None)"

definition timer_fires :: "UseRetryFnOptions \<Rightarrow> 'v fn_run \<Rightarrow> bool" where
  "timer_fires opts run = timer_fires_in (timer opts) run"

text \<open>How \<open>Promise.race\<close> settles; \<open>None\<close> when it never does.\<close>

definition race :: "UseRetryFnOptions \<Rightarrow> 'v fn_run \<Rightarrow> 'v settlement option" where
  "race opts run =
     (if timer_fires opts run then Some (Reject timeout_error)
      else map_option snd (fn_settles run))"

text \<open>
  The arguments of the calls of \<open>ctx.skipRetry\<close> the operation has made when the race
  settles: those before its own promise settles, and before the timer's callback when
  that runs first. Later calls write to variables that are not read again.
\<close>

fun skips_before :: "nat option \<Rightarrow> 'v fn_run \<Rightarrow> error option list" where
  "skips_before tm (CallSkip t err run) = (if due tm t then [] else err # skips_before tm run)"
| "skips_before tm (Settle d s) = []"
| "skips_before tm Forever = []"

definition fn_skips_seen :: "UseRetryFnOptions \<Rightarrow> 'v fn_run \<Rightarrow> error option list" where
  "fn_skips_seen opts run = skips_before (timer opts) run"

text \<open>The iteration's variables when the \<open>catch\<close> block starts.\<close>

definition locals_at_catch :: "UseRetryFnOptions \<Rightarrow> 'v fn_run \<Rightarrow> locals" where
  "locals_at_catch opts run =
     (let l = skip_calls (fn_skips_seen opts run) \<lparr>customError = None, skipRetry = False\<rparr>
      in if timer_fires opts run then l\<lparr>skipRetry := True\<rparr> else l)"

subsection \<open>One iteration of the loop\<close>

text \<open>
  \<open>typeof options.delay === 'function' ? options.delay({attempts}) : (options.delay ?? 100)\<close>
\<close>

definition delay_value :: "UseRetryFnOptions \<Rightarrow> int \<Rightarrow> nat" where
  "delay_value opts n =
     (case delay opts of
        Some (DelayFunction f) \<Rightarrow> f n
      | Some (DelayNumber d) \<Rightarrow> d
      | None \<Rightarrow> 100)"

definition delay_events :: "UseRetryFnOptions \<Rightarrow> int \<Rightarrow> event list" where
  "delay_events opts n =
     (case delay opts of Some (DelayFunction f) \<Rightarrow> [DelayCalled n] | _ \<Rightarrow> [])"

text \<open>How an iteration ends: \<open>return\<close>, \<open>throw\<close>, the next iteration, or a promise that never settles.\<close>

datatype 'v step = Return 'v | Throw "error option" | Continue | Hang

definition log :: "event list \<Rightarrow> run_state \<Rightarrow> run_state" where
  "log evs st = st\<lparr>events := events st @ evs\<rparr>"

text \<open>
  \<open>if (skipRetry) { throw customError || lastError; } await new Promise(... setTimeout(resolve, delay))\<close>
\<close>

definition retry_decision :: "locals \<Rightarrow> nat \<Rightarrow> run_state \<Rightarrow> 'v step \<times> run_state" where
  "retry_decision l d st =
     (if skipRetry l
      then (Throw (case customError l of Some c \<Rightarrow> Some c | None \<Rightarrow> lastError st), st)
      else (Continue, log [Slept d] st))"

text \<open>The \<open>catch (err)\<close> block.\<close>

definition catch_block ::
  "UseRetryFnOptions \<Rightarrow> locals \<Rightarrow> nat \<Rightarrow> error \<Rightarrow> run_state \<Rightarrow> 'v step \<times> run_state" where
  "catch_block opts l d err st =
     (let st1 = st\<lparr>lastError := Some err, attempts := attempts st + 1\<rparr>
      in case onError opts of
           None \<Rightarrow> retry_decision l d st1
         | Some hook \<Rightarrow>
             (let h = hook (attempts st1); st2 = log [OnErrorCalled (attempts st1)] st1
              in case hook_throws h of
                   Some x \<Rightarrow> (Throw (Some x), st2)
                 | None \<Rightarrow> retry_decision (skip_calls (hook_skips h) l) d st2))"

text \<open>The body of \<open>while (attempts <= maxAttempts)\<close>.\<close>

definition iteration ::
  "(int \<Rightarrow> 'v fn_run) \<Rightarrow> UseRetryFnOptions \<Rightarrow> run_state \<Rightarrow> 'v step \<times> run_state" where
  "iteration fn opts st =
     (let d = delay_value opts (attempts st);
          run = fn (attempts st);
          st1 = log (delay_events opts (attempts st) @ [FnCalled (attempts st)]) st
      in case race opts run of
           None \<Rightarrow> (Hang, st1)
         | Some (Fulfil v) \<Rightarrow> (Return v, st1)
         | Some (Reject err) \<Rightarrow> catch_block opts (locals_at_catch opts run) d err st1)"

subsection \<open>The loop and the function\<close>

text \<open>The promise \<open>useRetryFn\<close> returns: fulfilled, rejected with the thrown value, or pending for ever.\<close>

datatype 'v outcome = Resolved 'v | Rejected "error option" | Pending

lemma retry_decision_Continue:
  "retry_decision l d st = (Continue, st') \<Longrightarrow> attempts st' = attempts st"
  by (auto simp: retry_decision_def log_def split: if_splits)

lemma catch_block_Continue:
  "catch_block opts l d err st = (Continue, st') \<Longrightarrow> attempts st' = attempts st + 1"
  by (auto simp: catch_block_def Let_def log_def split: option.splits
           dest!: retry_decision_Continue)

lemma iteration_Continue:
  "iteration fn opts st = (Continue, st') \<Longrightarrow> attempts st' = attempts st + 1"
  by (auto simp: iteration_def Let_def log_def split: option.splits settlement.splits
           dest!: catch_block_Continue)

function retry_loop ::
  "(int \<Rightarrow> 'v fn_run) \<Rightarrow> UseRetryFnOptions \<Rightarrow> int \<Rightarrow> run_state \<Rightarrow> 'v outcome \<times> run_state" where
  "retry_loop fn opts m st =
     (if attempts st \<le> m then
        (case iteration fn opts st of
           (Return v, st') \<Rightarrow> (Resolved v, st')
         | (Throw e, st') \<Rightarrow> (Rejected e, st')
         | (Hang, st') \<Rightarrow> (Pending, st')
         | (Continue, st') \<Rightarrow> retry_loop fn opts m st')
      else (Rejected (lastError st), st))"
  by pat_completeness auto
termination
  apply (relation "measure (\<lambda>(fn, opts, m, st). nat (m + 1 - attempts st))")
   apply simp
  apply (auto dest!: sym [of "(Continue, _)"] iteration_Continue)
  done

declare retry_loop.simps [simp del]

text \<open>
  \<open>let attempts = 1; let lastError = null; let maxAttempts = options.maxAttempts ?? 5;\<close>
  then the loop, then \<open>throw lastError\<close>.
\<close>

definition initial_state :: run_state where
  "initial_state = \<lparr>attempts = 1, lastError = None, events = []\<rparr>"

definition max_attempts :: "UseRetryFnOptions \<Rightarrow> int" where
  "max_attempts opts = (case maxAttempts opts of None \<Rightarrow> 5 | Some m \<Rightarrow> m)"

definition useRetryFn ::
  "(int \<Rightarrow> 'v fn_run) \<Rightarrow> UseRetryFnOptions \<Rightarrow> 'v outcome \<times> run_state" where
  "useRetryFn fn opts = retry_loop fn opts (max_attempts opts) initial_state"

text \<open>What a caller and the callbacks observe of a call.\<close>

definition result :: "(int \<Rightarrow> 'v fn_run) \<Rightarrow> UseRetryFnOptions \<Rightarrow> 'v outcome" where
  "result fn opts = fst (useRetryFn fn opts)"

definition trace :: "(int \<Rightarrow> 'v fn_run) \<Rightarrow> UseRetryFnOptions \<Rightarrow> event list" where
  "trace fn opts = events (snd (useRetryFn fn opts))"

fun fn_args :: "event list \<Rightarrow> int list" where
  "fn_args [] = []"
| "fn_args (FnCalled n # evs) = n # fn_args evs"
| "fn_args (_ # evs) = fn_args evs"

fun onError_args :: "event list \<Rightarrow> int list" where
  "onError_args [] = []"
| "onError_args (OnErrorCalled n # evs) = n # onError_args evs"
| "onError_args (_ # evs) = onError_args evs"

fun delay_args :: "event list \<Rightarrow> int list" where
  "delay_args [] = []"
| "delay_args (DelayCalled n # evs) = n # delay_args evs"
| "delay_args (_ # evs) = delay_args evs"

fun sleeps :: "event list \<Rightarrow> nat list" where
  "sleeps [] = []"
| "sleeps (Slept d # evs) = d # sleeps evs"
| "sleeps (_ # evs) = sleeps evs"

subsection \<open>Vocabulary for the properties\<close>

text \<open>
  The functions below name what the properties speak of. They are computed from the
  callbacks and the options with the functions of the loop.
\<close>

text \<open>The error raised by the \<open>n\<close>-th call of the operation, if it raises one.\<close>

definition thrown_by :: "(int \<Rightarrow> 'v fn_run) \<Rightarrow> int \<Rightarrow> error option" where
  "thrown_by fn n = (case fn_settles (fn n) of Some (_, Reject e) \<Rightarrow> Some e | _ \<Rightarrow> None)"

text \<open>The error the \<open>catch\<close> block receives in attempt \<open>n\<close>; \<open>None\<close> when the attempt does not fail.\<close>

definition failure :: "(int \<Rightarrow> 'v fn_run) \<Rightarrow> UseRetryFnOptions \<Rightarrow> int \<Rightarrow> error option" where
  "failure fn opts n = (case race opts (fn n) of Some (Reject e) \<Rightarrow> Some e | _ \<Rightarrow> None)"

text \<open>The value attempt \<open>n\<close> returns, when the operation wins the race and fulfils.\<close>

definition success :: "(int \<Rightarrow> 'v fn_run) \<Rightarrow> UseRetryFnOptions \<Rightarrow> int \<Rightarrow> 'v option" where
  "success fn opts n = (case race opts (fn n) of Some (Fulfil v) \<Rightarrow> Some v | _ \<Rightarrow> None)"

text \<open>What \<open>onError\<close> does when called with \<open>attempts = n\<close>; nothing when it is not configured.\<close>

definition hook_skips_at :: "UseRetryFnOptions \<Rightarrow> int \<Rightarrow> error option list" where
  "hook_skips_at opts n = (case onError opts of None \<Rightarrow> [] | Some hook \<Rightarrow> hook_skips (hook n))"

definition hook_throws_at :: "UseRetryFnOptions \<Rightarrow> int \<Rightarrow> error option" where
  "hook_throws_at opts n = (case onError opts of None \<Rightarrow> None | Some hook \<Rightarrow> hook_throws (hook n))"

definition hook_events :: "UseRetryFnOptions \<Rightarrow> int \<Rightarrow> event list" where
  "hook_events opts n = (case onError opts of None \<Rightarrow> [] | Some hook \<Rightarrow> [OnErrorCalled n])"

text \<open>The iteration's variables when \<open>if (skipRetry)\<close> is evaluated in attempt \<open>n\<close>.\<close>

definition locals_at_decision :: "(int \<Rightarrow> 'v fn_run) \<Rightarrow> UseRetryFnOptions \<Rightarrow> int \<Rightarrow> locals" where
  "locals_at_decision fn opts n =
     skip_calls (hook_skips_at opts (n + 1)) (locals_at_catch opts (fn n))"

text \<open>
  The arguments of all calls of the skip capability in attempt \<open>n\<close>, in order: those of
  the operation, then those of the \<open>onError\<close> call that follows its failure.
\<close>

definition skip_args :: "(int \<Rightarrow> 'v fn_run) \<Rightarrow> UseRetryFnOptions \<Rightarrow> int \<Rightarrow> error option list" where
  "skip_args fn opts n = fn_skips_seen opts (fn n) @ hook_skips_at opts (n + 1)"

text \<open>
  Attempt \<open>n\<close> fails and nothing but the attempt budget stands against a retry: the
  operation rejects before any timer, the skip capability is not called, and \<open>onError\<close>
  returns normally.
\<close>

definition fails_plainly :: "(int \<Rightarrow> 'v fn_run) \<Rightarrow> UseRetryFnOptions \<Rightarrow> int \<Rightarrow> bool" where
  "fails_plainly fn opts n =
     (failure fn opts n \<noteq> None \<and> \<not> timer_fires opts (fn n) \<and> skip_args fn opts n = []
      \<and> hook_throws_at opts (n + 1) = None)"

text \<open>The events of an attempt up to the call of the operation, and of an attempt that is retried.\<close>

definition call_events :: "UseRetryFnOptions \<Rightarrow> int \<Rightarrow> event list" where
  "call_events opts n = delay_events opts n @ [FnCalled n]"

definition retry_events :: "UseRetryFnOptions \<Rightarrow> int \<Rightarrow> event list" where
  "retry_events opts n =
     call_events opts n @ hook_events opts (n + 1) @ [Slept (delay_value opts n)]"

fun retries_events :: "UseRetryFnOptions \<Rightarrow> int \<Rightarrow> nat \<Rightarrow> event list" where
  "retries_events opts a 0 = []"
| "retries_events opts a (Suc k) = retry_events opts a @ retries_events opts (a + 1) k"

text \<open>Attempt \<open>n\<close> fails: the \<open>catch\<close> block runs.\<close>

definition failed :: "(int \<Rightarrow> 'v fn_run) \<Rightarrow> UseRetryFnOptions \<Rightarrow> int \<Rightarrow> bool" where
  "failed fn opts n = (failure fn opts n \<noteq> None)"

text \<open>Attempt \<open>n\<close> fails and the loop goes on: \<open>onError\<close> returns and the skip flag is not set.\<close>

definition retried :: "(int \<Rightarrow> 'v fn_run) \<Rightarrow> UseRetryFnOptions \<Rightarrow> int \<Rightarrow> bool" where
  "retried fn opts n =
     (failed fn opts n \<and> hook_throws_at opts (n + 1) = None
      \<and> \<not> skipRetry (locals_at_decision fn opts n))"

text \<open>The events of attempt \<open>n\<close>.\<close>

definition iteration_events :: "(int \<Rightarrow> 'v fn_run) \<Rightarrow> UseRetryFnOptions \<Rightarrow> int \<Rightarrow> event list" where
  "iteration_events fn opts n =
     call_events opts n
     @ (if failed fn opts n then hook_events opts (n + 1) else [])
     @ (if retried fn opts n then [Slept (delay_value opts n)] else [])"

text \<open>\<open>typeof options.delay === 'function'\<close>\<close>

definition delay_is_function :: "UseRetryFnOptions \<Rightarrow> bool" where
  "delay_is_function opts = (case delay opts of Some (DelayFunction f) \<Rightarrow> True | _ \<Rightarrow> False)"

subsection \<open>Examples\<close>

text \<open>\<open>options = {}\<close>, the default parameter.\<close>

definition no_options :: UseRetryFnOptions where
  "no_options = \<lparr>delay = None, onError = None, maxAttempts = None, timeout = None\<rparr>"

text \<open>An operation that throws, or returns, at once and does not call the skip capability.\<close>

definition throws :: "error \<Rightarrow> 'v fn_run" where
  "throws e = Settle 0 (Reject e)"

definition returns :: "'v \<Rightarrow> 'v fn_run" where
  "returns v = Settle 0 (Fulfil v)"

text \<open>\<open>new Error(`Attempt ${attempts} failed`)\<close>, for the ordinals 1 to 5.\<close>

definition attempt_failed :: "int \<Rightarrow> error" where
  "attempt_failed n =
     Error (''Attempt '' @ (if n = 1 then ''1'' else if n = 2 then ''2'' else if n = 3 then ''3''
                            else if n = 4 then ''4'' else ''5'') @ '' failed'')"

text \<open>Operations and hooks of the test suite.\<close>

definition always_fails :: "string \<Rightarrow> int \<Rightarrow> string fn_run" where
  "always_fails msg n = throws (Error msg)"

definition skip_on_second :: "int \<Rightarrow> string fn_run" where
  "skip_on_second n =
     (if n = 2 then CallSkip 0 (Some (Error ''Custom error'')) (throws (Error ''Regular error''))
      else throws (Error ''Regular error''))"

definition skip_without_error :: "int \<Rightarrow> string fn_run" where
  "skip_without_error n = CallSkip 0 None (throws (Error ''Original error''))"

definition slow_success :: "int \<Rightarrow> string fn_run" where
  "slow_success n = Settle 2000 (Fulfil ''success'')"

definition skip_twice :: "int \<Rightarrow> string fn_run" where
  "skip_twice n =
     CallSkip 0 (Some (Error ''Custom error'')) (CallSkip 0 None (throws (Error ''Regular error'')))"

definition skip_early_and_late :: "int \<Rightarrow> string fn_run" where
  "skip_early_and_late n =
     CallSkip 0 (Some (Error ''Custom error''))
       (CallSkip 1500 (Some (Error ''Late error''))
          (Settle 2000 (Reject (Error ''Regular error''))))"

definition skip_then_slow :: "int \<Rightarrow> string fn_run" where
  "skip_then_slow n = CallSkip 0 (Some (Error ''Custom error'')) (Settle 2000 (Fulfil ''success''))"

definition late_skip_slow :: "int \<Rightarrow> string fn_run" where
  "late_skip_slow n = CallSkip 1500 (Some (Error ''Late error'')) (Settle 2000 (Fulfil ''success''))"

definition quiet_hook :: "int \<Rightarrow> hook_run" where
  "quiet_hook n = \<lparr>hook_skips = [], hook_throws = None\<rparr>"

definition skipping_hook :: "int \<Rightarrow> hook_run" where
  "skipping_hook n = \<lparr>hook_skips = [Some (Error ''Stop'')], hook_throws = None\<rparr>"

definition throwing_hook :: "int \<Rightarrow> hook_run" where
  "throwing_hook n =
     (if n = 3 then \<lparr>hook_skips = [Some (Error ''Stop'')], hook_throws = Some (Error ''Hook failed'')\<rparr>
      else \<lparr>hook_skips = [], hook_throws = None\<rparr>)"

section \<open>Properties\<close>

subsection \<open>The skip flag and one iteration\<close>

lemma skip_calls_Nil [simp]: "skip_calls [] l = l"
  by (simp add: skip_calls_def)

lemma skip_calls_snoc [simp]: "skip_calls (errs @ [e]) l = ctx_skipRetry e (skip_calls errs l)"
  by (simp add: skip_calls_def)

lemma skip_calls_append: "skip_calls (xs @ ys) l = skip_calls ys (skip_calls xs l)"
  by (simp add: skip_calls_def)

lemma skipRetry_skip_calls: "skipRetry (skip_calls errs l) = (skipRetry l \<or> errs \<noteq> [])"
  by (induction errs rule: rev_induct) (simp_all add: ctx_skipRetry_def)

lemma customError_skip_calls:
  "customError (skip_calls errs l) = (if errs = [] then customError l else last errs)"
  by (induction errs rule: rev_induct) (simp_all add: ctx_skipRetry_def)

lemma skipRetry_at_decision:
  "skipRetry (locals_at_decision fn opts n) = (timer_fires opts (fn n) \<or> skip_args fn opts n \<noteq> [])"
  by (auto simp: locals_at_decision_def locals_at_catch_def Let_def skipRetry_skip_calls skip_args_def)

lemma customError_at_decision:
  "customError (locals_at_decision fn opts n) =
     (if skip_args fn opts n = [] then None else last (skip_args fn opts n))"
  by (auto simp: locals_at_decision_def locals_at_catch_def Let_def customError_skip_calls skip_args_def)

text \<open>The iteration, said with the functions above.\<close>

lemma iteration_eq:
  "iteration fn opts st =
     (let n = attempts st; st1 = log (call_events opts n) st in
      case race opts (fn n) of
        None \<Rightarrow> (Hang, st1)
      | Some (Fulfil v) \<Rightarrow> (Return v, st1)
      | Some (Reject e) \<Rightarrow>
          (let st2 = log (hook_events opts (n + 1)) (st1\<lparr>lastError := Some e, attempts := n + 1\<rparr>) in
           case hook_throws_at opts (n + 1) of
             Some x \<Rightarrow> (Throw (Some x), st2)
           | None \<Rightarrow>
               if skipRetry (locals_at_decision fn opts n)
               then (Throw (case customError (locals_at_decision fn opts n) of
                              Some c \<Rightarrow> Some c | None \<Rightarrow> Some e), st2)
               else (Continue, log [Slept (delay_value opts n)] st2)))"
  by (simp add: iteration_def catch_block_def retry_decision_def Let_def log_def call_events_def
        hook_events_def hook_throws_at_def hook_skips_at_def locals_at_decision_def
      split: option.splits settlement.splits)


lemma retry_loop_exit:
  "\<not> attempts st \<le> m \<Longrightarrow> retry_loop fn opts m st = (Rejected (lastError st), st)"
  by (simp add: retry_loop.simps)

lemma iteration_fails_plainly:
  assumes "fails_plainly fn opts (attempts st)"
  shows "iteration fn opts st =
           (Continue, st\<lparr>attempts := attempts st + 1,
                         lastError := failure fn opts (attempts st),
                         events := events st @ retry_events opts (attempts st)\<rparr>)"
  using assms
  by (auto simp: iteration_eq fails_plainly_def failure_def skipRetry_at_decision Let_def log_def
        retry_events_def split: option.splits settlement.splits)

lemma retry_loop_step:
  "attempts st \<le> m \<Longrightarrow>
   retry_loop fn opts m st =
     (case iteration fn opts st of
        (Return v, st') \<Rightarrow> (Resolved v, st')
      | (Throw e, st') \<Rightarrow> (Rejected e, st')
      | (Hang, st') \<Rightarrow> (Pending, st')
      | (Continue, st') \<Rightarrow> retry_loop fn opts m st')"
  by (subst retry_loop.simps) simp

lemma retry_loop_retries:
  assumes "\<forall>i<k. fails_plainly fn opts (attempts st + int i)"
    and "attempts st + int k \<le> m + 1"
  shows "retry_loop fn opts m st =
           retry_loop fn opts m
             (st\<lparr>attempts := attempts st + int k,
                 lastError := (if k = 0 then lastError st
                               else failure fn opts (attempts st + int k - 1)),
                 events := events st @ retries_events opts (attempts st) k\<rparr>)"
  using assms
proof (induction k arbitrary: st)
  case 0
  then show ?case by simp
next
  case (Suc k)
  let ?st' = "st\<lparr>attempts := attempts st + 1,
                  lastError := failure fn opts (attempts st),
                  events := events st @ retry_events opts (attempts st)\<rparr>"
  from Suc.prems have first: "fails_plainly fn opts (attempts st)"
    by (metis add.right_neutral of_nat_0 zero_less_Suc)
  from Suc.prems have le: "attempts st \<le> m" by simp
  have rest: "\<forall>i<k. fails_plainly fn opts (attempts ?st' + int i)"
  proof (intro allI impI)
    fix i assume "i < k"
    then have "fails_plainly fn opts (attempts st + int (Suc i))"
      using Suc.prems(1) by blast
    then show "fails_plainly fn opts (attempts ?st' + int i)"
      by (simp add: algebra_simps)
  qed
  have bound: "attempts ?st' + int k \<le> m + 1"
    using Suc.prems(2) by simp
  have "retry_loop fn opts m st = retry_loop fn opts m ?st'"
    using le by (simp add: retry_loop_step iteration_fails_plainly [OF first])
  also have "\<dots> = retry_loop fn opts m
             (?st'\<lparr>attempts := attempts ?st' + int k,
                 lastError := (if k = 0 then lastError ?st'
                               else failure fn opts (attempts ?st' + int k - 1)),
                 events := events ?st' @ retries_events opts (attempts ?st') k\<rparr>)"
    by (rule Suc.IH [OF rest bound])
  finally show ?case
    by (simp add: algebra_simps)
qed

subsection \<open>Events and runs\<close>

lemma fn_args_append [simp]: "fn_args (xs @ ys) = fn_args xs @ fn_args ys"
  by (induction xs rule: fn_args.induct) simp_all

lemma onError_args_append [simp]: "onError_args (xs @ ys) = onError_args xs @ onError_args ys"
  by (induction xs rule: onError_args.induct) simp_all

lemma delay_args_append [simp]: "delay_args (xs @ ys) = delay_args xs @ delay_args ys"
  by (induction xs rule: delay_args.induct) simp_all

lemma sleeps_append [simp]: "sleeps (xs @ ys) = sleeps xs @ sleeps ys"
  by (induction xs rule: sleeps.induct) simp_all

lemma args_delay_events [simp]:
  "fn_args (delay_events opts n) = []" "onError_args (delay_events opts n) = []"
  "sleeps (delay_events opts n) = []"
  by (simp_all add: delay_events_def split: option.splits delay_option.splits)

lemma args_hook_events [simp]:
  "fn_args (hook_events opts n) = []" "delay_args (hook_events opts n) = []"
  "sleeps (hook_events opts n) = []"
  by (simp_all add: hook_events_def split: option.splits)

lemma args_call_events [simp]:
  "fn_args (call_events opts n) = [n]" "onError_args (call_events opts n) = []"
  "sleeps (call_events opts n) = []" "delay_args (call_events opts n) = delay_args (delay_events opts n)"
  by (simp_all add: call_events_def)

lemma args_retry_events [simp]:
  "fn_args (retry_events opts n) = [n]"
  "sleeps (retry_events opts n) = [delay_value opts n]"
  "onError_args (retry_events opts n) = onError_args (hook_events opts (n + 1))"
  "delay_args (retry_events opts n) = delay_args (delay_events opts n)"
  by (simp_all add: retry_events_def)

lemma fn_args_retries_events: "fn_args (retries_events opts a k) = [a..a + int k - 1]"
proof (induction k arbitrary: a)
  case 0
  then show ?case by simp
next
  case (Suc k)
  have "[a..a + int (Suc k) - 1] = a # [a + 1..a + 1 + int k - 1]"
    by (subst upto_rec1) (simp_all add: algebra_simps)
  with Suc show ?case by simp
qed

lemma sleeps_retries_events:
  "sleeps (retries_events opts a k) = map (delay_value opts) [a..a + int k - 1]"
proof (induction k arbitrary: a)
  case 0
  then show ?case by simp
next
  case (Suc k)
  have "[a..a + int (Suc k) - 1] = a # [a + 1..a + 1 + int k - 1]"
    by (subst upto_rec1) (simp_all add: algebra_simps)
  with Suc show ?case by simp
qed

lemma timer_fires_late:
  assumes "timer opts = Some t"
    and "case fn_settles run of None \<Rightarrow> True | Some (d, _) \<Rightarrow> t < d"
  shows "timer_fires opts run"
  using assms(2) unfolding timer_fires_def assms(1)
  by (induction run) (simp_all add: due_def)

lemma failure_thrown_by:
  "\<not> timer_fires opts (fn n) \<Longrightarrow> failure fn opts n = thrown_by fn n"
  by (auto simp: failure_def thrown_by_def race_def split: option.splits settlement.splits)

text \<open>A call whose first \<open>n - 1\<close> attempts fail plainly reaches attempt \<open>n\<close>.\<close>

lemma useRetryFn_reaches:
  assumes "0 < n" and "\<forall>j\<in>{1..<int n}. fails_plainly fn opts j"
    and "int n \<le> max_attempts opts + 1"
  shows "useRetryFn fn opts =
           retry_loop fn opts (max_attempts opts)
             \<lparr>attempts = int n,
              lastError = (if n = 1 then None else failure fn opts (int n - 1)),
              events = retries_events opts 1 (n - 1)\<rparr>"
proof -
  have a: "\<forall>i<n - 1. fails_plainly fn opts (attempts initial_state + int i)"
    using assms(2) by (auto simp: initial_state_def)
  have b: "attempts initial_state + int (n - 1) \<le> max_attempts opts + 1"
    using assms(1,3) by (simp add: initial_state_def)
  show ?thesis
    unfolding useRetryFn_def
    by (subst retry_loop_retries [OF a b]) (use assms(1) in \<open>auto simp: initial_state_def of_nat_diff\<close>)
qed

text \<open>How the loop ends in an attempt within the budget that is not retried.\<close>

lemma retry_loop_success:
  assumes "attempts st \<le> m" and "success fn opts (attempts st) = Some v"
  shows "retry_loop fn opts m st = (Resolved v, log (call_events opts (attempts st)) st)"
  using assms
  by (auto simp: retry_loop_step iteration_eq success_def Let_def
           split: option.splits settlement.splits)

lemma retry_loop_hook_throws:
  assumes "attempts st \<le> m" and "failure fn opts (attempts st) = Some e"
    and "hook_throws_at opts (attempts st + 1) = Some x"
  shows "retry_loop fn opts m st =
           (Rejected (Some x),
            log (hook_events opts (attempts st + 1))
              (log (call_events opts (attempts st)) st
                 \<lparr>lastError := Some e, attempts := attempts st + 1\<rparr>))"
  using assms
  by (auto simp: retry_loop_step iteration_eq failure_def Let_def
           split: option.splits settlement.splits)

lemma retry_loop_skip:
  assumes "attempts st \<le> m" and "failure fn opts (attempts st) = Some e"
    and "hook_throws_at opts (attempts st + 1) = None"
    and "timer_fires opts (fn (attempts st)) \<or> skip_args fn opts (attempts st) \<noteq> []"
  shows "retry_loop fn opts m st =
           (Rejected (if skip_args fn opts (attempts st) = [] then Some e
                      else case last (skip_args fn opts (attempts st)) of
                             Some c \<Rightarrow> Some c | None \<Rightarrow> Some e),
            log (hook_events opts (attempts st + 1))
              (log (call_events opts (attempts st)) st
                 \<lparr>lastError := Some e, attempts := attempts st + 1\<rparr>))"
  using assms
  by (auto simp: retry_loop_step iteration_eq failure_def Let_def skipRetry_at_decision
                 customError_at_decision
           split: option.splits settlement.splits)

lemma useRetryFn_exhausted:
  assumes "max_attempts opts = int m" and "0 < m" and "\<forall>n\<in>{1..int m}. fails_plainly fn opts n"
  shows "useRetryFn fn opts =
           (Rejected (thrown_by fn (int m)),
            \<lparr>attempts = int m + 1, lastError = thrown_by fn (int m),
             events = retries_events opts 1 m\<rparr>)"
proof -
  have "\<forall>j\<in>{1..<int (m + 1)}. fails_plainly fn opts j"
    using assms(3) by auto
  moreover have "int (m + 1) \<le> max_attempts opts + 1"
    using assms(1) by simp
  ultimately have "useRetryFn fn opts =
      retry_loop fn opts (max_attempts opts)
        \<lparr>attempts = int (m + 1),
         lastError = (if m + 1 = 1 then None else failure fn opts (int (m + 1) - 1)),
         events = retries_events opts 1 (m + 1 - 1)\<rparr>"
    by (intro useRetryFn_reaches) simp_all
  moreover have "failure fn opts (int m) = thrown_by fn (int m)"
    using assms(2,3) by (intro failure_thrown_by) (simp add: fails_plainly_def)
  ultimately show ?thesis
    using assms(1,2) by (simp add: retry_loop_exit)
qed

lemma retries_events_snoc:
  "retries_events opts a (Suc k) = retries_events opts a k @ retry_events opts (a + int k)"
proof (induction k arbitrary: a)
  case 0
  show ?case by simp
next
  case (Suc k)
  have "retries_events opts a (Suc (Suc k))
          = retry_events opts a @ retries_events opts (a + 1) (Suc k)"
    by simp
  also have "\<dots> = retry_events opts a @ retries_events opts (a + 1) k
                      @ retry_events opts (a + 1 + int k)"
    by (simp only: Suc.IH)
  also have "\<dots> = retries_events opts a (Suc k) @ retry_events opts (a + int (Suc k))"
    by (simp add: algebra_simps)
  finally show ?case .
qed

lemma sleeps_when_exhausted:
  assumes "max_attempts opts = int m" and "0 < m"
    and "\<forall>n\<in>{1..int m}. fails_plainly fn opts n"
  shows "sleeps (trace fn opts) = map (delay_value opts) [1..int m]"
    and "last (trace fn opts) = Slept (delay_value opts (int m))"
proof -
  have tr: "trace fn opts = retries_events opts 1 m"
    by (simp add: trace_def useRetryFn_exhausted [OF assms])
  show "sleeps (trace fn opts) = map (delay_value opts) [1..int m]"
    by (simp add: tr sleeps_retries_events)
  obtain j where m: "m = Suc j"
    using assms(2) by (cases m) simp_all
  have "retries_events opts 1 m = retries_events opts 1 j @ retry_events opts (1 + int j)"
    unfolding m by (rule retries_events_snoc)
  then have "last (retries_events opts 1 m) = Slept (delay_value opts (int m))"
    by (simp add: retry_events_def m add.commute)
  then show "last (trace fn opts) = Slept (delay_value opts (int m))"
    by (simp add: tr)
qed

lemmas example_defs =
  no_options_def throws_def returns_def attempt_failed_def
  fails_plainly_def failure_def success_def thrown_by_def race_def timer_fires_def timer_def
  skip_args_def fn_skips_seen_def hook_skips_at_def hook_throws_at_def max_attempts_def
  delay_value_def timeout_error_def locals_at_catch_def due_def upto_rec1

lemma useRetryFn_stops:
  assumes "0 < n" and "\<forall>j\<in>{1..<int n}. fails_plainly fn opts j"
    and "int n \<le> max_attempts opts"
    and "retry_loop fn opts (max_attempts opts)
           \<lparr>attempts = int n,
            lastError = (if n = 1 then None else failure fn opts (int n - 1)),
            events = retries_events opts 1 (n - 1)\<rparr> = (out, st)"
  shows "useRetryFn fn opts = (out, st)"
  using useRetryFn_reaches [of n fn opts] assms by simp

lemma iteration_shape:
  assumes "iteration fn opts st = (r, st')"
  shows "events st' = events st @ iteration_events fn opts (attempts st)"
    and "attempts st' = attempts st + (if failed fn opts (attempts st) then 1 else 0)"
    and "(r = Continue) = retried fn opts (attempts st)"
  using assms
  by (auto simp: iteration_eq iteration_events_def failed_def retried_def failure_def Let_def
                 log_def
           split: option.splits settlement.splits if_splits)

lemma args_iteration_events [simp]:
  "fn_args (iteration_events fn opts n) = [n]"
  "delay_args (iteration_events fn opts n) = (if delay_is_function opts then [n] else [])"
  "onError_args (iteration_events fn opts n) =
     (if onError opts \<noteq> None \<and> failed fn opts n then [n + 1] else [])"
  "sleeps (iteration_events fn opts n) = (if retried fn opts n then [delay_value opts n] else [])"
  by (auto simp: iteration_events_def call_events_def delay_events_def hook_events_def
                 delay_is_function_def
           split: option.splits delay_option.splits)

lemma retry_loop_shape:
  assumes "retry_loop fn opts m st = (out, st')"
  shows "\<exists>ns. events st' = events st @ concat (map (iteration_events fn opts) ns)
              \<and> ns = [attempts st..attempts st + int (length ns) - 1]
              \<and> attempts st' = attempts st + int (length (filter (failed fn opts) ns))
              \<and> filter (failed fn opts) ns
                  = [attempts st..attempts st + int (length (filter (failed fn opts) ns)) - 1]
              \<and> (\<forall>n\<in>set ns. n \<le> m)
              \<and> (\<forall>n\<in>set (butlast ns). retried fn opts n)"
  using assms
proof (induction fn opts m st arbitrary: out st' rule: retry_loop.induct)
  case (1 fn opts m st)
  show ?case
  proof (cases "attempts st \<le> m")
    case False
    with "1.prems" have "st' = st"
      by (simp add: retry_loop_exit)
    then show ?thesis
      by (intro exI [of _ "[]"]) simp
  next
    case True
    obtain r y where it: "iteration fn opts st = (r, y)"
      by (cases "iteration fn opts st")
    note shape = iteration_shape [OF it]
    show ?thesis
    proof (cases "r = Continue")
      case False
      with "1.prems" True it have "st' = y"
        by (cases r) (simp_all add: retry_loop_step)
      moreover have "\<not> retried fn opts (attempts st)"
        using shape(3) False by simp
      ultimately show ?thesis
        using shape(1,2) True
        by (intro exI [of _ "[attempts st]"]) simp
    next
      case Continue: True
      with "1.prems" \<open>attempts st \<le> m\<close> it have loop: "retry_loop fn opts m y = (out, st')"
        by (simp add: retry_loop_step)
      have f: "failed fn opts (attempts st)"
        using shape(3) Continue by (simp add: retried_def)
      then have ay: "attempts y = attempts st + 1"
        using shape(2) by simp
      from "1.IH" [OF \<open>attempts st \<le> m\<close> it [symmetric] Continue loop]
      obtain ns where ns: "events st' = events y @ concat (map (iteration_events fn opts) ns)"
        "ns = [attempts y..attempts y + int (length ns) - 1]"
        "attempts st' = attempts y + int (length (filter (failed fn opts) ns))"
        "filter (failed fn opts) ns
           = [attempts y..attempts y + int (length (filter (failed fn opts) ns)) - 1]"
        "\<forall>n\<in>set ns. n \<le> m"
        "\<forall>n\<in>set (butlast ns). retried fn opts n"
        by blast
      have up: "[attempts st..attempts st + int (Suc k) - 1]
                  = attempts st # [attempts y..attempts y + int k - 1]" for k
        by (subst upto_rec1) (simp_all add: ay algebra_simps)
      show ?thesis
      proof (intro exI [of _ "attempts st # ns"] conjI)
        show "events st' = events st @ concat (map (iteration_events fn opts) (attempts st # ns))"
          using ns(1) shape(1) by simp
        show "attempts st # ns = [attempts st..attempts st + int (length (attempts st # ns)) - 1]"
          using ns(2) up [of "length ns"] by simp
        show "attempts st' = attempts st + int (length (filter (failed fn opts) (attempts st # ns)))"
          using ns(3) f ay by simp
        show "filter (failed fn opts) (attempts st # ns)
                = [attempts st..attempts st
                     + int (length (filter (failed fn opts) (attempts st # ns))) - 1]"
          using ns(4) f up [of "length (filter (failed fn opts) ns)"] by simp
        show "\<forall>n\<in>set (attempts st # ns). n \<le> m"
          using ns(5) \<open>attempts st \<le> m\<close> by simp
        show "\<forall>n\<in>set (butlast (attempts st # ns)). retried fn opts n"
          using ns(6) shape(3) Continue by simp
      qed
    qed
  qed
qed

lemma args_concat_iteration_events:
  "fn_args (concat (map (iteration_events fn opts) ns)) = ns"
  "delay_args (concat (map (iteration_events fn opts) ns)) = (if delay_is_function opts then ns else [])"
  "onError_args (concat (map (iteration_events fn opts) ns))
     = (if onError opts = None then [] else map (\<lambda>n. n + 1) (filter (failed fn opts) ns))"
  "sleeps (concat (map (iteration_events fn opts) ns))
     = map (delay_value opts) (filter (retried fn opts) ns)"
  by (induction ns) simp_all

lemma map_Suc_upto: "map (\<lambda>n. n + 1) [a..a + int k - 1] = [a + 1..a + int k]"
proof (induction k arbitrary: a)
  case 0
  then show ?case by simp
next
  case (Suc k)
  have "[a..a + int (Suc k) - 1] = a # [a + 1..a + 1 + int k - 1]"
    by (subst upto_rec1) (simp_all add: algebra_simps)
  moreover have "[a + 1..a + int (Suc k)] = (a + 1) # [a + 1 + 1..a + 1 + int k]"
    by (subst upto_rec1) (simp_all add: algebra_simps)
  ultimately show ?case
    using Suc [of "a + 1"] by simp
qed

lemma trace_shape:
  fixes fn :: "int \<Rightarrow> 'v fn_run" and opts :: UseRetryFnOptions
  defines "T \<equiv> trace fn opts"
  shows "fn_args T = [1..int (length (fn_args T))]"
    and "delay_args T = (if delay_is_function opts then fn_args T else [])"
    and "onError_args T
           = (if onError opts = None then [] else map (\<lambda>n. n + 1) (filter (failed fn opts) (fn_args T)))"
    and "sleeps T = map (delay_value opts) (filter (retried fn opts) (fn_args T))"
    and "filter (failed fn opts) (fn_args T) = [1..int (length (filter (failed fn opts) (fn_args T)))]"
    and "attempts (snd (useRetryFn fn opts)) = 1 + int (length (filter (failed fn opts) (fn_args T)))"
    and "\<forall>n\<in>set (fn_args T). n \<le> max_attempts opts"
    and "\<forall>n\<in>set (butlast (fn_args T)). retried fn opts n"
proof -
  obtain out st' where run: "retry_loop fn opts (max_attempts opts) initial_state = (out, st')"
    by (cases "retry_loop fn opts (max_attempts opts) initial_state")
  from retry_loop_shape [OF run]
  obtain ns where ns: "events st' = concat (map (iteration_events fn opts) ns)"
    "ns = [1..1 + int (length ns) - 1]"
    "attempts st' = 1 + int (length (filter (failed fn opts) ns))"
    "filter (failed fn opts) ns = [1..1 + int (length (filter (failed fn opts) ns)) - 1]"
    "\<forall>n\<in>set ns. n \<le> max_attempts opts"
    "\<forall>n\<in>set (butlast ns). retried fn opts n"
    by (auto simp: initial_state_def)
  have T: "T = concat (map (iteration_events fn opts) ns)"
    by (simp add: T_def trace_def useRetryFn_def run ns(1))
  have args: "fn_args T = ns"
    by (simp add: T args_concat_iteration_events)
  show "fn_args T = [1..int (length (fn_args T))]"
    using ns(2) by (simp add: args)
  show "delay_args T = (if delay_is_function opts then fn_args T else [])"
    unfolding args by (simp add: T args_concat_iteration_events)
  show "onError_args T
          = (if onError opts = None then [] else map (\<lambda>n. n + 1) (filter (failed fn opts) (fn_args T)))"
    unfolding args by (simp add: T args_concat_iteration_events)
  show "sleeps T = map (delay_value opts) (filter (retried fn opts) (fn_args T))"
    unfolding args by (simp add: T args_concat_iteration_events)
  show "filter (failed fn opts) (fn_args T) = [1..int (length (filter (failed fn opts) (fn_args T)))]"
    using ns(4) by (simp add: args)
  show "attempts (snd (useRetryFn fn opts)) = 1 + int (length (filter (failed fn opts) (fn_args T)))"
    using ns(3) by (simp add: args useRetryFn_def run)
  show "\<forall>n\<in>set (fn_args T). n \<le> max_attempts opts"
    using ns(5) by (simp add: args)
  show "\<forall>n\<in>set (butlast (fn_args T)). retried fn opts n"
    using ns(6) by (simp add: args)
qed

lemmas example_defs2 = example_defs always_fails_def skip_on_second_def skip_without_error_def
  slow_success_def quiet_hook_def skipping_hook_def throwing_hook_def skip_twice_def
  skip_early_and_late_def skip_then_slow_def late_skip_slow_def

lemma useRetryFn_skipped:
  assumes "0 < n" and "\<forall>j\<in>{1..<int n}. fails_plainly fn opts j"
    and "int n \<le> max_attempts opts"
    and "failure fn opts (int n) = Some e"
    and "hook_throws_at opts (int n + 1) = None"
    and "timer_fires opts (fn (int n)) \<or> skip_args fn opts (int n) \<noteq> []"
  shows "useRetryFn fn opts =
           (Rejected (if skip_args fn opts (int n) = [] then Some e
                      else case last (skip_args fn opts (int n)) of
                             Some c \<Rightarrow> Some c | None \<Rightarrow> Some e),
            \<lparr>attempts = int n + 1, lastError = Some e,
             events = retries_events opts 1 (n - 1) @ call_events opts (int n)
                        @ hook_events opts (int n + 1)\<rparr>)"
proof -
  let ?st = "\<lparr>attempts = int n,
              lastError = (if n = 1 then None else failure fn opts (int n - 1)),
              events = retries_events opts 1 (n - 1)\<rparr>"
  have "retry_loop fn opts (max_attempts opts) ?st =
          (Rejected (if skip_args fn opts (attempts ?st) = [] then Some e
                     else case last (skip_args fn opts (attempts ?st)) of
                            Some c \<Rightarrow> Some c | None \<Rightarrow> Some e),
           log (hook_events opts (attempts ?st + 1))
             (log (call_events opts (attempts ?st)) ?st
                \<lparr>lastError := Some e, attempts := attempts ?st + 1\<rparr>))"
    using assms(3-6) by (intro retry_loop_skip) simp_all
  from useRetryFn_stops [OF assms(1-3) this] show ?thesis
    by (simp add: log_def)
qed

lemmas events_defs = retry_events_def call_events_def hook_events_def delay_events_def
  eval_nat_numeral

section \<open>Claims\<close>

text \<open>
  C1. An operation that fails on its first \<open>k\<close> calls and succeeds on call \<open>k + 1\<close>, with
  \<open>k < maxAttempts\<close>: the call resolves with the value of call \<open>k + 1\<close>, the operation
  is called exactly \<open>k + 1\<close> times, with the ordinals \<open>1, \<dots>, k + 1\<close>, and the delay is
  waited exactly \<open>k\<close> times, once after each failure. With \<open>k = 0\<close> the operation is
  called once and nothing is waited. The failures are those the loop retries
  (\<open>fails_plainly\<close>): an attempt ended by the skip capability, by the timer or by an
  exception of \<open>onError\<close> ends the call and is the subject of C4, C5 and C9.
\<close>

theorem retry_until_success:
  assumes "\<forall>n\<in>{1..int k}. fails_plainly fn opts n"
    and "success fn opts (int k + 1) = Some v"
    and "int k < max_attempts opts"
  shows "result fn opts = Resolved v
         \<and> fn_args (trace fn opts) = [1..int k + 1]
         \<and> length (fn_args (trace fn opts)) = k + 1
         \<and> sleeps (trace fn opts) = map (delay_value opts) [1..int k]
         \<and> length (sleeps (trace fn opts)) = k"
proof -
  let ?st = "\<lparr>attempts = int (k + 1),
              lastError = (if k + 1 = 1 then None else failure fn opts (int (k + 1) - 1)),
              events = retries_events opts 1 (k + 1 - 1)\<rparr>"
  have "\<forall>j\<in>{1..<int (k + 1)}. fails_plainly fn opts j"
    using assms(1) by auto
  moreover have "int (k + 1) \<le> max_attempts opts + 1"
    using assms(3) by simp
  ultimately have "useRetryFn fn opts = retry_loop fn opts (max_attempts opts) ?st"
    by (intro useRetryFn_reaches) simp_all
  moreover have "retry_loop fn opts (max_attempts opts) ?st
                   = (Resolved v, log (call_events opts (attempts ?st)) ?st)"
    using assms(2,3) by (intro retry_loop_success) (simp_all add: add.commute)
  ultimately have run: "useRetryFn fn opts = (Resolved v, log (call_events opts (int k + 1)) ?st)"
    by (simp add: add.commute)
  have up: "[1..int k + 1] = [1..int k] @ [int k + 1]"
    by (subst upto_rec2) simp_all
  show ?thesis
    by (simp add: result_def trace_def run log_def fn_args_retries_events sleeps_retries_events up)
qed

theorem retry_until_success_witness:
  "fails_plainly (\<lambda>n. if n \<le> 3 then throws (attempt_failed n) else returns ''success'')
     no_options 1
   \<and> fails_plainly (\<lambda>n. if n \<le> 3 then throws (attempt_failed n) else returns ''success'')
     no_options 2
   \<and> fails_plainly (\<lambda>n. if n \<le> 3 then throws (attempt_failed n) else returns ''success'')
     no_options 3
   \<and> success (\<lambda>n. if n \<le> 3 then throws (attempt_failed n) else returns ''success'')
         no_options (int 3 + 1) = Some ''success''
   \<and> int 3 < max_attempts no_options
   \<and> result (\<lambda>n. if n \<le> 3 then throws (attempt_failed n) else returns ''success'')
        no_options = Resolved ''success''
   \<and> fn_args (trace (\<lambda>n. if n \<le> 3 then throws (attempt_failed n) else returns ''success'')
        no_options) = [1, 2, 3, 4]
   \<and> sleeps (trace (\<lambda>n. if n \<le> 3 then throws (attempt_failed n) else returns ''success'')
        no_options) = [100, 100, 100]
   \<and> result (\<lambda>n. returns ''success'') no_options = Resolved ''success''
   \<and> fn_args (trace (\<lambda>n. returns ''success'') no_options) = [1]
   \<and> sleeps (trace (\<lambda>n. returns ''success'') no_options) = []"
  using retry_until_success
    [of 3 "\<lambda>n. if n \<le> 3 then throws (attempt_failed n) else returns ''success''"
        no_options "''success''"]
    retry_until_success [of 0 "\<lambda>n. returns ''success''" no_options "''success''"]
  by (simp add: example_defs)

text \<open>
  C2. An operation that fails on every call, with no call of the skip capability and
  \<open>maxAttempts\<close> configured to \<open>m\<close>, or absent and \<open>m = 5\<close>, with \<open>m\<close> positive: the call
  rejects with the error raised by the \<open>m\<close>-th call of the operation, and the operation
  is called exactly \<open>m\<close> times. As in C1 the failures are plain ones: the operation
  rejects before any timer and \<open>onError\<close>, if configured, returns.
\<close>

theorem always_failing_exhausts:
  assumes "maxAttempts opts = Some (int m) \<or> maxAttempts opts = None \<and> m = 5"
    and "0 < m"
    and "\<forall>n\<in>{1..int m}. fails_plainly fn opts n"
  shows "result fn opts = Rejected (thrown_by fn (int m))
         \<and> thrown_by fn (int m) \<noteq> None
         \<and> fn_args (trace fn opts) = [1..int m]
         \<and> length (fn_args (trace fn opts)) = m"
proof -
  have m: "max_attempts opts = int m"
    using assms(1) by (auto simp: max_attempts_def)
  have "fails_plainly fn opts (int m)"
    using assms(2,3) by simp
  then have "thrown_by fn (int m) \<noteq> None"
    using failure_thrown_by [of opts fn "int m"] by (simp add: fails_plainly_def)
  then show ?thesis
    by (simp add: result_def trace_def useRetryFn_exhausted [OF m assms(2,3)]
                  fn_args_retries_events)
qed

theorem always_failing_exhausts_witness:
  "maxAttempts (no_options\<lparr>maxAttempts := Some 3\<rparr>) = Some (int 3) \<and> (0::nat) < 3
   \<and> fails_plainly (\<lambda>n. throws (attempt_failed n) :: string fn_run)
        (no_options\<lparr>maxAttempts := Some 3\<rparr>) 1
   \<and> fails_plainly (\<lambda>n. throws (attempt_failed n) :: string fn_run)
        (no_options\<lparr>maxAttempts := Some 3\<rparr>) 2
   \<and> fails_plainly (\<lambda>n. throws (attempt_failed n) :: string fn_run)
        (no_options\<lparr>maxAttempts := Some 3\<rparr>) 3
   \<and> result (\<lambda>n. throws (attempt_failed n) :: string fn_run) (no_options\<lparr>maxAttempts := Some 3\<rparr>)
       = Rejected (Some (Error ''Attempt 3 failed''))
   \<and> fn_args (trace (\<lambda>n. throws (attempt_failed n) :: string fn_run)
                 (no_options\<lparr>maxAttempts := Some 3\<rparr>)) = [1, 2, 3]
   \<and> maxAttempts no_options = None \<and> (0::nat) < 5
   \<and> fails_plainly (\<lambda>n. throws (attempt_failed n) :: string fn_run) no_options 1
   \<and> fails_plainly (\<lambda>n. throws (attempt_failed n) :: string fn_run) no_options 2
   \<and> fails_plainly (\<lambda>n. throws (attempt_failed n) :: string fn_run) no_options 3
   \<and> fails_plainly (\<lambda>n. throws (attempt_failed n) :: string fn_run) no_options 4
   \<and> fails_plainly (\<lambda>n. throws (attempt_failed n) :: string fn_run) no_options 5
   \<and> result (\<lambda>n. throws (attempt_failed n) :: string fn_run) no_options
       = Rejected (Some (Error ''Attempt 5 failed''))
   \<and> fn_args (trace (\<lambda>n. throws (attempt_failed n) :: string fn_run) no_options)
       = [1, 2, 3, 4, 5]"
  using always_failing_exhausts
      [of "no_options\<lparr>maxAttempts := Some 3\<rparr>" 3 "\<lambda>n. throws (attempt_failed n) :: string fn_run"]
    always_failing_exhausts [of no_options 5 "\<lambda>n. throws (attempt_failed n) :: string fn_run"]
  by (simp add: example_defs)

text \<open>
  C3. The claim is that an always-failing operation with \<open>maxAttempts = m\<close> and no skip
  has the delay waited \<open>m - 1\<close> times, with no wait between the last failure and the
  rejection of the call. The loop waits before it tests \<open>attempts <= maxAttempts\<close> again,
  so it waits after the last failure too: with \<open>maxAttempts = 3\<close> and an operation that
  always throws \<open>Error('boom')\<close>, the default delay of 100 is waited three times, and
  the wait is the last thing the call does before it rejects.
\<close>

theorem delay_awaited_after_final_failure:
  "result (always_fails ''boom'') (no_options\<lparr>maxAttempts := Some 3\<rparr>)
     = Rejected (Some (Error ''boom''))
   \<and> fn_args (trace (always_fails ''boom'') (no_options\<lparr>maxAttempts := Some 3\<rparr>)) = [1, 2, 3]
   \<and> sleeps (trace (always_fails ''boom'') (no_options\<lparr>maxAttempts := Some 3\<rparr>))
       = [100, 100, 100]
   \<and> last (trace (always_fails ''boom'') (no_options\<lparr>maxAttempts := Some 3\<rparr>)) = Slept 100"
proof -
  let ?opts = "no_options\<lparr>maxAttempts := Some 3\<rparr>"
  have m: "max_attempts ?opts = int 3" and pos: "(0::nat) < 3"
    and f: "\<forall>n\<in>{1..int 3}. fails_plainly (always_fails ''boom'') ?opts n"
    by (simp_all add: example_defs2)
  show ?thesis
    using useRetryFn_exhausted [OF m pos f] sleeps_when_exhausted [OF m pos f]
    by (simp add: result_def trace_def fn_args_retries_events example_defs2)
qed




text \<open>
  C5 (amended). The \<open>timeout\<close> option is set (and positive) and the first call of the
  operation has not settled by then, with \<open>maxAttempts\<close> at least 1: the timer sets the
  skip flag, whatever the operation did, the operation is called exactly once, whatever
  \<open>maxAttempts\<close> is, and nothing is waited. The call rejects with the timeout error,
  whose message is \<open>Operation timed out\<close>, when \<open>onError\<close> returns and no override was
  recorded during the attempt. The override of the skip capability keeps its priority
  (\<open>throw customError || lastError\<close>): when the last call of the capability seen has
  the error \<open>x\<close>, the call rejects with \<open>x\<close>. When \<open>onError\<close> throws \<open>y\<close>, it rejects
  with \<open>y\<close>.
\<close>

theorem timeout_fails_at_once:
  assumes "timeout opts = Some t" and "0 < t"
    and "case fn_settles (fn 1) of None \<Rightarrow> True | Some (d, _) \<Rightarrow> t < d"
    and "1 \<le> max_attempts opts"
  shows "skipRetry (locals_at_catch opts (fn 1))
         \<and> fn_args (trace fn opts) = [1]
         \<and> sleeps (trace fn opts) = []
         \<and> timeout_error = Error ''Operation timed out''
         \<and> (hook_throws_at opts 2 = None
              \<and> (skip_args fn opts 1 = [] \<or> last (skip_args fn opts 1) = None)
             \<longrightarrow> result fn opts = Rejected (Some timeout_error))
         \<and> (hook_throws_at opts 2 = None
              \<and> skip_args fn opts 1 \<noteq> [] \<and> last (skip_args fn opts 1) = Some x
             \<longrightarrow> result fn opts = Rejected (Some x))
         \<and> (hook_throws_at opts 2 = Some y \<longrightarrow> result fn opts = Rejected (Some y))"
proof -
  have fires: "timer_fires opts (fn 1)"
    using assms(1-3) by (intro timer_fires_late [of opts t]) (simp_all add: timer_def)
  then have fail: "failure fn opts 1 = Some timeout_error"
    by (simp add: failure_def race_def)
  let ?st = "\<lparr>attempts = int 1,
              lastError = (if (1::nat) = 1 then None else failure fn opts (int 1 - 1)),
              events = retries_events opts 1 (1 - 1)\<rparr>"
  let ?st' = "log (hook_events opts (attempts ?st + 1))
                (log (call_events opts (attempts ?st)) ?st
                   \<lparr>lastError := Some timeout_error, attempts := attempts ?st + 1\<rparr>)"
  let ?out = "Rejected (case hook_throws_at opts 2 of
                          Some y \<Rightarrow> Some y
                        | None \<Rightarrow>
                            if skip_args fn opts 1 = [] then Some timeout_error
                            else case last (skip_args fn opts 1) of
                                   Some c \<Rightarrow> Some c | None \<Rightarrow> Some timeout_error)"
  have run: "useRetryFn fn opts = (?out, ?st')"
  proof (cases "hook_throws_at opts 2")
    case None
    have "retry_loop fn opts (max_attempts opts) ?st =
            (Rejected (if skip_args fn opts (attempts ?st) = [] then Some timeout_error
                       else case last (skip_args fn opts (attempts ?st)) of
                              Some c \<Rightarrow> Some c | None \<Rightarrow> Some timeout_error), ?st')"
      using assms(4) None fires fail by (intro retry_loop_skip) simp_all
    then have "retry_loop fn opts (max_attempts opts) ?st = (?out, ?st')"
      using None by simp
    then show ?thesis
      using assms(4) by (intro useRetryFn_stops [of 1]) simp_all
  next
    case (Some y)
    have "retry_loop fn opts (max_attempts opts) ?st = (Rejected (Some y), ?st')"
      using assms(4) Some fail by (intro retry_loop_hook_throws) simp_all
    then have "retry_loop fn opts (max_attempts opts) ?st = (?out, ?st')"
      using Some by simp
    then show ?thesis
      using assms(4) by (intro useRetryFn_stops [of 1]) simp_all
  qed
  have tr: "trace fn opts = call_events opts 1 @ hook_events opts 2"
    by (simp add: trace_def run log_def)
  have res: "result fn opts = ?out"
    by (simp add: result_def run)
  have latch: "skipRetry (locals_at_catch opts (fn 1))"
    using fires by (simp add: locals_at_catch_def Let_def)
  show ?thesis
    unfolding res using latch by (auto simp: tr timeout_error_def)
qed

theorem timeout_fails_at_once_witness:
  "timeout (no_options\<lparr>timeout := Some 1000\<rparr>) = Some 1000 \<and> (0::nat) < 1000
   \<and> (case fn_settles (slow_success 1) of None \<Rightarrow> True | Some (d, _) \<Rightarrow> 1000 < d)
   \<and> 1 \<le> max_attempts (no_options\<lparr>timeout := Some 1000\<rparr>)
   \<and> hook_throws_at (no_options\<lparr>timeout := Some 1000\<rparr>) 2 = None
   \<and> skip_args slow_success (no_options\<lparr>timeout := Some 1000\<rparr>) 1 = []
   \<and> result slow_success (no_options\<lparr>timeout := Some 1000\<rparr>)
       = Rejected (Some (Error ''Operation timed out''))
   \<and> fn_args (trace slow_success (no_options\<lparr>timeout := Some 1000\<rparr>)) = [1]
   \<and> sleeps (trace slow_success (no_options\<lparr>timeout := Some 1000\<rparr>)) = []
   \<and> skipRetry (locals_at_catch (no_options\<lparr>timeout := Some 1000\<rparr>) (slow_success 1))
   \<and> fn_skips (late_skip_slow 1) = [(1500, Some (Error ''Late error''))]
   \<and> skip_args late_skip_slow (no_options\<lparr>timeout := Some 1000\<rparr>) 1 = []
   \<and> result late_skip_slow (no_options\<lparr>timeout := Some 1000\<rparr>)
       = Rejected (Some (Error ''Operation timed out''))
   \<and> skip_args slow_success
        (no_options\<lparr>onError := Some skipping_hook, timeout := Some 1000\<rparr>) 1
       = [Some (Error ''Stop'')]
   \<and> result slow_success (no_options\<lparr>onError := Some skipping_hook, timeout := Some 1000\<rparr>)
       = Rejected (Some (Error ''Stop''))"
proof -
  have a: "result slow_success (no_options\<lparr>timeout := Some 1000\<rparr>)
             = Rejected (Some (Error ''Operation timed out''))
           \<and> fn_args (trace slow_success (no_options\<lparr>timeout := Some 1000\<rparr>)) = [1]
           \<and> sleeps (trace slow_success (no_options\<lparr>timeout := Some 1000\<rparr>)) = []
           \<and> skipRetry (locals_at_catch (no_options\<lparr>timeout := Some 1000\<rparr>) (slow_success 1))"
    using timeout_fails_at_once [of "no_options\<lparr>timeout := Some 1000\<rparr>" 1000 slow_success]
    by (simp add: example_defs2)
  have b: "result late_skip_slow (no_options\<lparr>timeout := Some 1000\<rparr>)
             = Rejected (Some (Error ''Operation timed out''))"
    using timeout_fails_at_once [of "no_options\<lparr>timeout := Some 1000\<rparr>" 1000 late_skip_slow]
    by (simp add: example_defs2)
  have c: "result slow_success (no_options\<lparr>onError := Some skipping_hook, timeout := Some 1000\<rparr>)
             = Rejected (Some (Error ''Stop''))"
    using timeout_fails_at_once
      [of "no_options\<lparr>onError := Some skipping_hook, timeout := Some 1000\<rparr>" 1000 slow_success
          "Error ''Stop''"]
    by (simp add: example_defs2)
  show ?thesis
    unfolding a [THEN conjunct1] b c using a by (simp add: example_defs2)
qed

text \<open>
  Against the first wording of that claim, which has every timed-out call reject with
  the timeout error: the operation calls \<open>skipRetry(new Error('Custom error'))\<close> at once
  and takes 2000 to resolve, with \<open>timeout: 1000\<close>. The timer fires, and the call
  rejects with the override.
\<close>

theorem timeout_override_counterexample:
  "timeout (no_options\<lparr>timeout := Some 1000\<rparr>) = Some 1000
   \<and> fn_settles (skip_then_slow 1) = Some (2000, Fulfil ''success'')
   \<and> timer_fires (no_options\<lparr>timeout := Some 1000\<rparr>) (skip_then_slow 1)
   \<and> fn_args (trace skip_then_slow (no_options\<lparr>timeout := Some 1000\<rparr>)) = [1]
   \<and> result skip_then_slow (no_options\<lparr>timeout := Some 1000\<rparr>)
       = Rejected (Some (Error ''Custom error''))
   \<and> result skip_then_slow (no_options\<lparr>timeout := Some 1000\<rparr>)
       \<noteq> Rejected (Some timeout_error)"
  using useRetryFn_skipped
    [of 1 skip_then_slow "no_options\<lparr>timeout := Some 1000\<rparr>" "Error ''Operation timed out''"]
  by (simp add: result_def trace_def events_defs example_defs2)

text \<open>
  C6 (amended). When \<open>onError\<close> is configured it is called exactly once for each failed
  attempt and never for another attempt, whether the failure is retried, ends the call by
  a skip, or exhausts the budget. Its \<open>attempts\<close> is the ordinal of the failed attempt plus
  one, that is one more than the number of failures seen so far: 2 at the first failure,
  3 at the second.
\<close>

theorem onError_once_per_failure:
  assumes "onError opts = Some hook"
  shows "onError_args (trace fn opts)
           = map (\<lambda>n. n + 1) (filter (failed fn opts) (fn_args (trace fn opts)))
         \<and> length (onError_args (trace fn opts))
             = length (filter (failed fn opts) (fn_args (trace fn opts)))
         \<and> onError_args (trace fn opts)
             = [2..int (length (filter (failed fn opts) (fn_args (trace fn opts)))) + 1]"
proof -
  let ?F = "filter (failed fn opts) (fn_args (trace fn opts))"
  have a: "onError_args (trace fn opts) = map (\<lambda>n. n + 1) ?F"
    using trace_shape(3) [of fn opts] assms by simp
  have "map (\<lambda>n. n + 1) ?F = map (\<lambda>n. n + 1) [1..1 + int (length ?F) - 1]"
    using trace_shape(5) [of fn opts] by simp
  also have "\<dots> = [2..int (length ?F) + 1]"
    by (subst map_Suc_upto) (simp add: add.commute)
  finally show ?thesis
    using a by simp
qed

theorem onError_once_per_failure_witness:
  "onError (no_options\<lparr>onError := Some quiet_hook, maxAttempts := Some 2\<rparr>) = Some quiet_hook
   \<and> length (filter (failed (always_fails ''Test error'')
                (no_options\<lparr>onError := Some quiet_hook, maxAttempts := Some 2\<rparr>))
        (fn_args (trace (always_fails ''Test error'')
                    (no_options\<lparr>onError := Some quiet_hook, maxAttempts := Some 2\<rparr>)))) = 2
   \<and> onError_args (trace (always_fails ''Test error'')
                      (no_options\<lparr>onError := Some quiet_hook, maxAttempts := Some 2\<rparr>)) = [2, 3]"
proof -
  let ?opts = "no_options\<lparr>onError := Some quiet_hook, maxAttempts := Some 2\<rparr>"
  have m: "max_attempts ?opts = int 2" and pos: "(0::nat) < 2"
    and f: "\<forall>n\<in>{1..int 2}. fails_plainly (always_fails ''Test error'') ?opts n"
    by (simp_all add: example_defs2)
  have "fn_args (trace (always_fails ''Test error'') ?opts) = [1, 2]"
    using useRetryFn_exhausted [OF m pos f]
    by (simp add: trace_def fn_args_retries_events example_defs2)
  then show ?thesis
    using onError_once_per_failure [of ?opts quiet_hook "always_fails ''Test error''"]
    by (simp add: failed_def example_defs2)
qed

text \<open>
  The first wording of that claim gives \<open>onError\<close> the number of failures seen so far,
  where the code gives one more. The test
  \<open>should call onError with correct context\<close> run on the model: two failures, and the
  hook receives \<open>attempts = 2\<close> then \<open>attempts = 3\<close>, not 1 then 2.
\<close>

theorem onError_attempts_counterexample:
  "filter (failed (always_fails ''Test error'')
             (no_options\<lparr>onError := Some quiet_hook, maxAttempts := Some 2\<rparr>))
     (fn_args (trace (always_fails ''Test error'')
                 (no_options\<lparr>onError := Some quiet_hook, maxAttempts := Some 2\<rparr>))) = [1, 2]
   \<and> onError_args (trace (always_fails ''Test error'')
                      (no_options\<lparr>onError := Some quiet_hook, maxAttempts := Some 2\<rparr>)) = [2, 3]
   \<and> onError_args (trace (always_fails ''Test error'')
                      (no_options\<lparr>onError := Some quiet_hook, maxAttempts := Some 2\<rparr>)) \<noteq> [1, 2]"
proof -
  let ?opts = "no_options\<lparr>onError := Some quiet_hook, maxAttempts := Some 2\<rparr>"
  have m: "max_attempts ?opts = int 2" and pos: "(0::nat) < 2"
    and f: "\<forall>n\<in>{1..int 2}. fails_plainly (always_fails ''Test error'') ?opts n"
    by (simp_all add: example_defs2)
  have "trace (always_fails ''Test error'') ?opts
          = [FnCalled 1, OnErrorCalled 2, Slept 100, FnCalled 2, OnErrorCalled 3, Slept 100]"
    using useRetryFn_exhausted [OF m pos f]
    by (simp add: trace_def events_defs example_defs2)
  then show ?thesis
    by (simp add: failed_def example_defs2)
qed

text \<open>
  C7. In every call the operation sees \<open>attempts = 1, 2, 3, \<dots>\<close>; the delay function, when
  \<open>delay\<close> is one, is called with the same ordinals, before the increment; the wait after
  a retried attempt \<open>n\<close> lasts the delay computed for \<open>n\<close>; and \<open>onError\<close> is called with
  \<open>n + 1\<close> for each failed attempt \<open>n\<close>, after the increment. The failed attempts are
  \<open>1, \<dots>, f\<close>, so \<open>onError\<close> sees \<open>2, 3, 4, \<dots>\<close>.
\<close>

theorem attempt_ordinals:
  "fn_args (trace fn opts) = [1..int (length (fn_args (trace fn opts)))]
   \<and> delay_args (trace fn opts) = (if delay_is_function opts then fn_args (trace fn opts) else [])
   \<and> sleeps (trace fn opts)
       = map (delay_value opts) (filter (retried fn opts) (fn_args (trace fn opts)))
   \<and> onError_args (trace fn opts)
       = (if onError opts = None then []
          else map (\<lambda>n. n + 1) (filter (failed fn opts) (fn_args (trace fn opts))))
   \<and> filter (failed fn opts) (fn_args (trace fn opts))
       = [1..int (length (filter (failed fn opts) (fn_args (trace fn opts))))]"
  using trace_shape(1-5) [of fn opts] by simp

theorem attempt_ordinals_witness:
  "fn_args (trace (always_fails ''Test error'')
       (no_options\<lparr>delay := Some (DelayFunction (\<lambda>n. 50 * nat n)), onError := Some quiet_hook,
                   maxAttempts := Some 3\<rparr>)) = [1, 2, 3]
   \<and> delay_args (trace (always_fails ''Test error'')
       (no_options\<lparr>delay := Some (DelayFunction (\<lambda>n. 50 * nat n)), onError := Some quiet_hook,
                   maxAttempts := Some 3\<rparr>)) = [1, 2, 3]
   \<and> onError_args (trace (always_fails ''Test error'')
       (no_options\<lparr>delay := Some (DelayFunction (\<lambda>n. 50 * nat n)), onError := Some quiet_hook,
                   maxAttempts := Some 3\<rparr>)) = [2, 3, 4]
   \<and> sleeps (trace (always_fails ''Test error'')
       (no_options\<lparr>delay := Some (DelayFunction (\<lambda>n. 50 * nat n)), onError := Some quiet_hook,
                   maxAttempts := Some 3\<rparr>)) = [50, 100, 150]"
proof -
  let ?opts = "no_options\<lparr>delay := Some (DelayFunction (\<lambda>n. 50 * nat n)),
                 onError := Some quiet_hook, maxAttempts := Some 3\<rparr>"
  have m: "max_attempts ?opts = int 3" and pos: "(0::nat) < 3"
    and f: "\<forall>n\<in>{1..int 3}. fails_plainly (always_fails ''Test error'') ?opts n"
    by (simp_all add: example_defs2)
  have "fn_args (trace (always_fails ''Test error'') ?opts) = [1, 2, 3]"
    using useRetryFn_exhausted [OF m pos f]
    by (simp add: trace_def fn_args_retries_events example_defs2)
  then show ?thesis
    using attempt_ordinals [of "always_fails ''Test error''" ?opts]
    by (simp add: failed_def retried_def skipRetry_at_decision delay_is_function_def example_defs2)
qed

text \<open>
  C8 (amended). \<open>attempts\<close> starts at 1; an iteration adds 1 to it when the attempt
  fails and leaves it otherwise, so that at the end of the call it is 1 plus the number
  of failed attempts; at the end it is at most the larger of 1 and \<open>maxAttempts + 1\<close>,
  that is at most \<open>maxAttempts + 1\<close> when \<open>maxAttempts\<close> is not negative (6 when it is
  absent). A call of the skip capability sets \<open>skipRetry\<close>, further calls leave it set
  and only replace \<open>customError\<close>. A flag that is set when the \<open>catch\<close> block starts is
  not reset there: whatever \<open>onError\<close> does, the block does not go on to the next
  iteration. An iteration in which the capability is called or the timer fires does not
  go on either, and in a whole call a failed attempt in which that happens is the last
  attempt.
\<close>

theorem attempts_and_skip_invariants:
  fixes fn :: "int \<Rightarrow> 'v fn_run"
  shows
  "attempts initial_state = 1
   \<and> attempts (snd (iteration fn opts st))
       = attempts st + (if failed fn opts (attempts st) then 1 else 0)
   \<and> attempts (snd (useRetryFn fn opts))
       = 1 + int (length (filter (failed fn opts) (fn_args (trace fn opts))))
   \<and> attempts (snd (useRetryFn fn opts)) \<le> max 1 (max_attempts opts + 1)
   \<and> (maxAttempts opts = Some m \<and> 0 \<le> m \<longrightarrow> attempts (snd (useRetryFn fn opts)) \<le> m + 1)
   \<and> (maxAttempts opts = None \<longrightarrow> attempts (snd (useRetryFn fn opts)) \<le> 5 + 1)
   \<and> skipRetry (ctx_skipRetry err l)
   \<and> skipRetry (skip_calls errs (ctx_skipRetry err l))
   \<and> ctx_skipRetry err' (ctx_skipRetry err l) = (ctx_skipRetry err l)\<lparr>customError := err'\<rparr>
   \<and> (skipRetry l' \<longrightarrow>
        fst (catch_block opts l' d e st :: 'v step \<times> run_state) \<noteq> Continue)
   \<and> (skip_args fn opts (attempts st) \<noteq> [] \<or> timer_fires opts (fn (attempts st))
        \<longrightarrow> fst (iteration fn opts st) \<noteq> Continue)
   \<and> (\<forall>n\<in>set (fn_args (trace fn opts)).
          failed fn opts n \<and> (skip_args fn opts n \<noteq> [] \<or> timer_fires opts (fn n))
          \<longrightarrow> n = last (fn_args (trace fn opts)))"
proof -
  let ?F = "filter (failed fn opts) (fn_args (trace fn opts))"
  let ?N = "fn_args (trace fn opts)"
  obtain r y where ity: "iteration fn opts st = (r, y)"
    by (cases "iteration fn opts st")
  have it: "attempts (snd (iteration fn opts st))
              = attempts st + (if failed fn opts (attempts st) then 1 else 0)"
    using iteration_shape(2) [OF ity] by (simp add: ity)
  have fin: "attempts (snd (useRetryFn fn opts)) = 1 + int (length ?F)"
    by (rule trace_shape(6))
  have bound: "attempts (snd (useRetryFn fn opts)) \<le> max 1 (max_attempts opts + 1)"
  proof (cases "?F = []")
    case True
    then show ?thesis using fin by simp
  next
    case False
    then have "last ?F \<in> set ?F"
      by (rule last_in_set)
    then have "last ?F \<le> max_attempts opts"
      using trace_shape(7) [of fn opts] by simp
    moreover have "last ?F = int (length ?F)"
    proof -
      have "?F = [1..int (length ?F)]"
        by (rule trace_shape(5))
      moreover have "1 \<le> int (length ?F)"
        using False by (cases ?F) simp_all
      ultimately have "?F = [1..int (length ?F) - 1] @ [int (length ?F)]"
        using upto_rec2 [of 1 "int (length ?F)"] by simp
      then show ?thesis
        by (metis last_snoc)
    qed
    ultimately show ?thesis using fin by simp
  qed
  have configured: "maxAttempts opts = Some m \<and> 0 \<le> m
                      \<longrightarrow> attempts (snd (useRetryFn fn opts)) \<le> m + 1"
    using bound by (auto simp: max_attempts_def)
  have default: "maxAttempts opts = None \<longrightarrow> attempts (snd (useRetryFn fn opts)) \<le> 5 + 1"
    using bound by (auto simp: max_attempts_def)
  have catch: "skipRetry l' \<longrightarrow>
                 fst (catch_block opts l' d e st :: 'v step \<times> run_state) \<noteq> Continue"
    by (auto simp: catch_block_def retry_decision_def Let_def skipRetry_skip_calls
             split: option.splits)
  have latched: "\<not> retried fn opts n"
    if "skip_args fn opts n \<noteq> [] \<or> timer_fires opts (fn n)" for n
    using that by (auto simp: retried_def skipRetry_at_decision)
  have iter: "skip_args fn opts (attempts st) \<noteq> [] \<or> timer_fires opts (fn (attempts st))
                \<longrightarrow> fst (iteration fn opts st) \<noteq> Continue"
    using iteration_shape(3) [OF ity] latched [of "attempts st"] by (auto simp: ity)
  have last: "n = last ?N"
    if n: "n \<in> set ?N" and l: "skip_args fn opts n \<noteq> [] \<or> timer_fires opts (fn n)" for n
  proof -
    have "?N \<noteq> []"
      using n by auto
    then have "?N = butlast ?N @ [last ?N]"
      by simp
    then have "n \<in> set (butlast ?N) \<or> n = last ?N"
      using n by (metis Un_iff empty_iff empty_set set_ConsD set_append)
    moreover have "n \<notin> set (butlast ?N)"
      using trace_shape(8) [of fn opts] latched [OF l] by blast
    ultimately show ?thesis by simp
  qed
  show ?thesis
    using it fin bound configured default catch iter last
    by (simp add: initial_state_def ctx_skipRetry_def skipRetry_skip_calls)
qed

theorem attempts_and_skip_invariants_witness:
  "maxAttempts (no_options\<lparr>maxAttempts := Some 7\<rparr>) = Some 7 \<and> (0::int) \<le> 7
   \<and> attempts (snd (useRetryFn skip_on_second (no_options\<lparr>maxAttempts := Some 7\<rparr>))) = 3
   \<and> attempts (snd (useRetryFn skip_on_second (no_options\<lparr>maxAttempts := Some 7\<rparr>))) \<le> 7 + 1
   \<and> fn_args (trace skip_on_second (no_options\<lparr>maxAttempts := Some 7\<rparr>)) = [1, 2]
   \<and> failed skip_on_second (no_options\<lparr>maxAttempts := Some 7\<rparr>) 2
   \<and> skip_args skip_on_second (no_options\<lparr>maxAttempts := Some 7\<rparr>) 2
       = [Some (Error ''Custom error'')]
   \<and> 2 = last (fn_args (trace skip_on_second (no_options\<lparr>maxAttempts := Some 7\<rparr>)))
   \<and> attempts \<lparr>attempts = 2, lastError = Some (Error ''Regular error''), events = []\<rparr> = 2
   \<and> fst (iteration skip_on_second (no_options\<lparr>maxAttempts := Some 7\<rparr>)
             \<lparr>attempts = 2, lastError = Some (Error ''Regular error''), events = []\<rparr>)
       = Throw (Some (Error ''Custom error''))
   \<and> skipRetry \<lparr>customError = None, skipRetry = True\<rparr>
   \<and> fst (catch_block (no_options\<lparr>onError := Some quiet_hook\<rparr>)
             \<lparr>customError = None, skipRetry = True\<rparr> 100 (Error ''Regular error'')
             \<lparr>attempts = 2, lastError = None, events = []\<rparr>
           :: string step \<times> run_state)
       = Throw (Some (Error ''Regular error''))
   \<and> ctx_skipRetry None (ctx_skipRetry (Some (Error ''Custom error''))
          \<lparr>customError = None, skipRetry = False\<rparr>)
       = \<lparr>customError = None, skipRetry = True\<rparr>"
proof -
  let ?opts = "no_options\<lparr>maxAttempts := Some 7\<rparr>"
  let ?st = "\<lparr>attempts = 2, lastError = Some (Error ''Regular error''), events = []\<rparr>"
  have args: "fn_args (trace skip_on_second ?opts) = [1, 2]"
    using useRetryFn_skipped [of 2 skip_on_second ?opts "Error ''Regular error''"]
    by (simp add: trace_def events_defs example_defs2)
  have iter: "fst (iteration skip_on_second ?opts ?st) = Throw (Some (Error ''Custom error''))"
    by (simp add: iteration_def catch_block_def retry_decision_def Let_def log_def
                  skip_calls_def ctx_skipRetry_def delay_events_def example_defs2)
  have catch: "fst (catch_block (no_options\<lparr>onError := Some quiet_hook\<rparr>)
                     \<lparr>customError = None, skipRetry = True\<rparr> 100 (Error ''Regular error'')
                     \<lparr>attempts = 2, lastError = None, events = []\<rparr>
                   :: string step \<times> run_state)
                 = Throw (Some (Error ''Regular error''))"
    by (simp add: catch_block_def retry_decision_def Let_def log_def example_defs2)
  have inv: "attempts (snd (useRetryFn skip_on_second ?opts)) = 3
               \<and> attempts (snd (useRetryFn skip_on_second ?opts)) \<le> 7 + 1"
    using attempts_and_skip_invariants
      [of skip_on_second ?opts ?st 7 "Some (Error ''Custom error'')"
          "\<lparr>customError = None, skipRetry = False\<rparr>" "[]" None
          "\<lparr>customError = None, skipRetry = True\<rparr>" 100 "Error ''Regular error''"]
      args
    by (simp add: failed_def example_defs2)
  show ?thesis
    using inv iter catch args
    by (simp add: failed_def ctx_skipRetry_def example_defs2)
qed

text \<open>
  Against the first wording of that claim, which bounds \<open>attempts\<close> by
  \<open>maxAttempts + 1\<close> at the exit of the loop: with \<open>maxAttempts: -1\<close> the loop is left
  at once with \<open>attempts = 1\<close>, above \<open>maxAttempts + 1 = 0\<close>.
\<close>

theorem attempts_bound_counterexample:
  "maxAttempts (no_options\<lparr>maxAttempts := Some (- 1)\<rparr>) = Some (- 1)
   \<and> attempts (snd (useRetryFn (always_fails ''boom'') (no_options\<lparr>maxAttempts := Some (- 1)\<rparr>)))
       = 1
   \<and> max_attempts (no_options\<lparr>maxAttempts := Some (- 1)\<rparr>) + 1 = 0
   \<and> max_attempts (no_options\<lparr>maxAttempts := Some (- 1)\<rparr>) + 1
       < attempts (snd (useRetryFn (always_fails ''boom'')
                          (no_options\<lparr>maxAttempts := Some (- 1)\<rparr>)))"
  by (simp add: useRetryFn_def max_attempts_def initial_state_def retry_loop_exit no_options_def)

text \<open>
  C9. Attempt \<open>n\<close> is reached and fails, and \<open>onError\<close> throws \<open>x\<close> when called for it:
  the call rejects with \<open>x\<close>, whatever the skip capability was called with, the
  operation has been called \<open>n\<close> times, the call of \<open>onError\<close> is the last event, and the
  only waits are the \<open>n - 1\<close> ones after the earlier failures.
\<close>

theorem onError_exception_propagates:
  assumes "0 < n" and "\<forall>j\<in>{1..<int n}. fails_plainly fn opts j"
    and "int n \<le> max_attempts opts"
    and "failure fn opts (int n) = Some e"
    and "hook_throws_at opts (int n + 1) = Some x"
  shows "result fn opts = Rejected (Some x)
         \<and> fn_args (trace fn opts) = [1..int n]
         \<and> length (sleeps (trace fn opts)) = n - 1
         \<and> last (trace fn opts) = OnErrorCalled (int n + 1)"
proof -
  let ?st = "\<lparr>attempts = int n,
              lastError = (if n = 1 then None else failure fn opts (int n - 1)),
              events = retries_events opts 1 (n - 1)\<rparr>"
  have "retry_loop fn opts (max_attempts opts) ?st =
          (Rejected (Some x),
           log (hook_events opts (attempts ?st + 1))
             (log (call_events opts (attempts ?st)) ?st
                \<lparr>lastError := Some e, attempts := attempts ?st + 1\<rparr>))"
    using assms(3-5) by (intro retry_loop_hook_throws) simp_all
  from useRetryFn_stops [OF assms(1-3) this]
  have run: "useRetryFn fn opts =
          (Rejected (Some x),
           log (hook_events opts (int n + 1))
             (log (call_events opts (int n)) ?st\<lparr>lastError := Some e, attempts := int n + 1\<rparr>))"
    by simp
  have hook: "hook_events opts (int n + 1) = [OnErrorCalled (int n + 1)]"
    using assms(5) by (auto simp: hook_events_def hook_throws_at_def split: option.splits)
  have up: "[1..int n] = [1..int n - 1] @ [int n]"
    using assms(1) by (subst upto_rec2) simp_all
  show ?thesis
    using assms(1)
    by (simp add: result_def trace_def run log_def hook fn_args_retries_events
                  sleeps_retries_events up of_nat_diff)
qed

theorem onError_exception_propagates_witness:
  "(0::nat) < 2
   \<and> fails_plainly (always_fails ''Test error'') (no_options\<lparr>onError := Some throwing_hook\<rparr>) 1
   \<and> int 2 \<le> max_attempts (no_options\<lparr>onError := Some throwing_hook\<rparr>)
   \<and> failure (always_fails ''Test error'') (no_options\<lparr>onError := Some throwing_hook\<rparr>) (int 2)
       = Some (Error ''Test error'')
   \<and> hook_throws_at (no_options\<lparr>onError := Some throwing_hook\<rparr>) (int 2 + 1)
       = Some (Error ''Hook failed'')
   \<and> skip_args (always_fails ''Test error'') (no_options\<lparr>onError := Some throwing_hook\<rparr>) (int 2)
       = [Some (Error ''Stop'')]
   \<and> result (always_fails ''Test error'') (no_options\<lparr>onError := Some throwing_hook\<rparr>)
       = Rejected (Some (Error ''Hook failed''))
   \<and> fn_args (trace (always_fails ''Test error'') (no_options\<lparr>onError := Some throwing_hook\<rparr>))
       = [1, 2]
   \<and> length (sleeps (trace (always_fails ''Test error'')
                 (no_options\<lparr>onError := Some throwing_hook\<rparr>))) = 1
   \<and> last (trace (always_fails ''Test error'') (no_options\<lparr>onError := Some throwing_hook\<rparr>))
       = OnErrorCalled 3"
  using onError_exception_propagates
      [of 2 "always_fails ''Test error''" "no_options\<lparr>onError := Some throwing_hook\<rparr>"
          "Error ''Test error''" "Error ''Hook failed''"]
  by (simp add: example_defs2)

text \<open>
  C10. When \<open>maxAttempts\<close> is zero or negative the loop body never runs: the operation
  is not called, no delay is waited, nothing else is called, and the call rejects with
  \<open>null\<close>, the first value of \<open>lastError\<close>, not with an \<open>Error\<close>.
\<close>

theorem nonpositive_maxAttempts_throws_null:
  assumes "maxAttempts opts = Some m" and "m \<le> 0"
  shows "result fn opts = Rejected None \<and> trace fn opts = []
         \<and> fn_args (trace fn opts) = [] \<and> sleeps (trace fn opts) = []"
  using assms
  by (simp add: result_def trace_def useRetryFn_def max_attempts_def initial_state_def
                retry_loop_exit)

theorem nonpositive_maxAttempts_throws_null_witness:
  "maxAttempts \<lparr>delay = None, onError = None, maxAttempts = Some 0, timeout = None\<rparr> = Some 0
   \<and> (0::int) \<le> 0
   \<and> result (\<lambda>n. returns ''success'')
        \<lparr>delay = None, onError = None, maxAttempts = Some 0, timeout = None\<rparr> = Rejected None
   \<and> trace (\<lambda>n. returns ''success'')
        \<lparr>delay = None, onError = None, maxAttempts = Some 0, timeout = None\<rparr> = []"
  using nonpositive_maxAttempts_throws_null
    [of "\<lparr>delay = None, onError = None, maxAttempts = Some 0, timeout = None\<rparr>" 0
        "\<lambda>n. returns ''success''"]
  by simp

end
